theory Spec2Isabelle
  imports Main "HOL-Library.AList"
begin

section \<open>Usage accounting and entitlement gating of app.py\<close>

text \<open>
  The service keeps one JSON document, \<^verbatim>\<open>usage.json\<close>, that maps a user identity to a
  record with the keys \<^verbatim>\<open>used\<close>, \<^verbatim>\<open>subscribed\<close> and \<^verbatim>\<open>stripe_customer_id\<close>. Every
  helper loads the whole document, works on the dictionary it has just loaded, and
  (sometimes) writes a dictionary back. The model follows the helpers line by line; the
  file on disk and the payment processor are the only state.
\<close>

subsection \<open>Data\<close>

text \<open>
  A user record is a Python dict with string keys. Each key may be absent (\<open>None\<close>);
  when present it holds a value of the type the program itself stores under it: an int
  for \<^verbatim>\<open>used\<close>, a bool for \<^verbatim>\<open>subscribed\<close>, a str for \<^verbatim>\<open>stripe_customer_id\<close>.
\<close>

record user_record =
  used :: "int option"
  subscribed :: "bool option"
  stripe_customer_id :: "string option"

text \<open>
  The document is a dict from user identity to record. Python dicts and \<^verbatim>\<open>json\<close> keep
  insertion order, and the webhook's loop stops at the first match, so the order is part
  of the model: an association list, read with \<^const>\<open>map_of\<close> and written with
  \<^const>\<open>AList.update\<close> (replace in place, or append when the key is new).
\<close>

type_synonym data = "(string \<times> user_record) list"

text \<open>\<^verbatim>\<open>DATA_FILE\<close>: \<open>None\<close> when \<^verbatim>\<open>usage.json\<close> does not exist.\<close>

type_synonym data_file = "data option"

definition FREE_LIMIT :: int where
  "FREE_LIMIT = 3"

datatype error = KeyError string | StripeError | ProcessingError

subsection \<open>The payment processor\<close>

text \<open>
  \<^verbatim>\<open>stripe.Customer.create\<close> and \<^verbatim>\<open>stripe.checkout.Session.create\<close> are calls to an
  external service. They are parameters of the model: each takes the processor's state
  \<open>'w\<close> and returns the new one, with \<open>None\<close> for a call that raises.
\<close>

datatype session = Session (url: string)

record 'w stripe_api =
  Customer_create :: "string \<Rightarrow> 'w \<Rightarrow> string option \<times> 'w"
  Session_create :: "string \<Rightarrow> 'w \<Rightarrow> session option \<times> 'w"

record 'w world =
  usage_file :: data_file
  stripe :: 'w

subsection \<open>Data persistence helpers\<close>

definition load_data :: "data_file \<Rightarrow> data" where
  "load_data f = (case f of None \<Rightarrow> [] | Some d \<Rightarrow> d)"

definition save_data :: "data \<Rightarrow> data_file" where
  "save_data d = Some d"

text \<open>
  \<^verbatim>\<open>dict.setdefault(k, v)\<close>: the stored value when the key is present, otherwise \<open>v\<close>
  after appending \<open>(k, v)\<close>. The dictionary is returned too, since Python changes it in
  place.
\<close>

definition setdefault :: "('k \<times> 'v) list \<Rightarrow> 'k \<Rightarrow> 'v \<Rightarrow> ('k \<times> 'v) list \<times> 'v" where
  "setdefault d k v =
     (case map_of d k of Some x \<Rightarrow> (d, x) | None \<Rightarrow> (d @ [(k, v)], v))"

definition default_record :: user_record where
  "default_record = \<lparr>used = Some 0, subscribed = Some False, stripe_customer_id = None\<rparr>"

definition empty_record :: user_record where
  "empty_record = \<lparr>used = None, subscribed = None, stripe_customer_id = None\<rparr>"

text \<open>
  \<^verbatim>\<open>get_user_record\<close> loads the document into a local dictionary and returns the user's
  record inside it. Nothing is saved. The local dictionary is returned with the record,
  because the callers mutate the record, that is, this dictionary.
\<close>

definition get_user_record :: "data_file \<Rightarrow> string \<Rightarrow> data \<times> user_record" where
  "get_user_record f user_id = setdefault (load_data f) user_id default_record"

text \<open>
  \<^verbatim>\<open>increment_usage\<close>: \<^verbatim>\<open>rec["used"] += amount\<close> raises KeyError without the key and
  otherwise changes the local dictionary of \<^verbatim>\<open>get_user_record\<close>. Then
  \<^verbatim>\<open>save_data(load_data())\<close> loads the document again and writes that: the local
  dictionary \<open>local\<close> is not what is saved.
\<close>

definition increment_usage :: "data_file \<Rightarrow> string \<Rightarrow> int \<Rightarrow> error + data_file" where
  "increment_usage f user_id amount =
     (case get_user_record f user_id of (data, rec) \<Rightarrow>
        (case used rec of
           None \<Rightarrow> Inl (KeyError ''used'')
         | Some n \<Rightarrow>
             (let local = AList.update user_id (rec\<lparr>used := Some (n + amount)\<rparr>) data
              in Inr (save_data (load_data f)))))"

definition mark_subscribed :: "data_file \<Rightarrow> string \<Rightarrow> data_file" where
  "mark_subscribed f user_id =
     (case get_user_record f user_id of (data, rec) \<Rightarrow>
        (let local = AList.update user_id (rec\<lparr>subscribed := Some True\<rparr>) data
         in save_data (load_data f)))"

subsection \<open>Stripe Checkout helper\<close>

definition create_session ::
  "'w stripe_api \<Rightarrow> string \<Rightarrow> 'w world \<Rightarrow> (error + session) \<times> 'w world" where
  "create_session api cid s =
     (case Session_create api cid (stripe s) of
        (None, w) \<Rightarrow> (Inl StripeError, s\<lparr>stripe := w\<rparr>)
      | (Some sess, w) \<Rightarrow> (Inr sess, s\<lparr>stripe := w\<rparr>))"

text \<open>
  \<^verbatim>\<open>_create_stripe_session\<close>: the record defaults to the empty dict; a customer is
  created and the local dictionary saved only when the record has no
  \<^verbatim>\<open>stripe_customer_id\<close>; a checkout session is created in every call.
\<close>

definition create_stripe_session ::
  "'w stripe_api \<Rightarrow> string \<Rightarrow> 'w world \<Rightarrow> (error + session) \<times> 'w world" where
  "create_stripe_session api user_id s =
     (case setdefault (load_data (usage_file s)) user_id empty_record of (data, rec) \<Rightarrow>
        (case stripe_customer_id rec of
           None \<Rightarrow>
             (case Customer_create api user_id (stripe s) of
                (None, w) \<Rightarrow> (Inl StripeError, s\<lparr>stripe := w\<rparr>)
              | (Some cid, w) \<Rightarrow>
                  create_session api cid
                    \<lparr>usage_file = save_data
                       (AList.update user_id (rec\<lparr>stripe_customer_id := Some cid\<rparr>) data),
                     stripe = w\<rparr>)
         | Some cid \<Rightarrow> create_session api cid s))"

subsection \<open>Routes\<close>

datatype response =
    JsonError string nat
  | PaymentRequired string string
  | CheckoutUrl string
  | Redirect string nat
  | Abort nat
  | Empty nat
  | SendFile

text \<open>\<^verbatim>\<open>not user_id\<close> holds for a missing value and for the empty string.\<close>

definition falsy :: "string option \<Rightarrow> bool" where
  "falsy u = (case u of None \<Rightarrow> True | Some x \<Rightarrow> x = [])"

definition create_checkout_session ::
  "'w stripe_api \<Rightarrow> string option \<Rightarrow> 'w world \<Rightarrow> (error + response) \<times> 'w world" where
  "create_checkout_session api user_id s =
     (if falsy user_id then (Inr (JsonError ''user_id required'' 400), s)
      else case create_stripe_session api (the user_id) s of
             (Inl e, s') \<Rightarrow> (Inl e, s')
           | (Inr sess, s') \<Rightarrow> (Inr (CheckoutUrl (url sess)), s'))"

definition checkout_redirect ::
  "'w stripe_api \<Rightarrow> string option \<Rightarrow> 'w world \<Rightarrow> (error + response) \<times> 'w world" where
  "checkout_redirect api user_id s =
     (if falsy user_id then (Inr (Abort 400), s)
      else case create_stripe_session api (the user_id) s of
             (Inl e, s') \<Rightarrow> (Inl e, s')
           | (Inr sess, s') \<Rightarrow> (Inr (Redirect (url sess) 303), s'))"

text \<open>
  The webhook. \<open>None\<close> is a payload whose signature \<^verbatim>\<open>construct_event\<close> rejects.
  \<^verbatim>\<open>sess["customer"]\<close> may be JSON null, and \<^verbatim>\<open>rec.get("stripe_customer_id")\<close> is
  \<^verbatim>\<open>None\<close> for a record without the key: both are \<open>None\<close> here, and \<^verbatim>\<open>==\<close> is
  equality of options.
\<close>

record event =
  etype :: string
  customer :: "string option"

fun mark_first :: "string option \<Rightarrow> data \<Rightarrow> data" where
  "mark_first cust [] = []"
| "mark_first cust ((uid, rec) # rest) =
     (if stripe_customer_id rec = cust then (uid, rec\<lparr>subscribed := Some True\<rparr>) # rest
      else (uid, rec) # mark_first cust rest)"

definition stripe_webhook :: "event option \<Rightarrow> 'w world \<Rightarrow> response \<times> 'w world" where
  "stripe_webhook ev s =
     (case ev of
        None \<Rightarrow> (Abort 400, s)
      | Some e \<Rightarrow>
          if etype e = ''checkout.session.completed''
          then (Empty 200, s\<lparr>usage_file := save_data (mark_first (customer e) (load_data (usage_file s)))\<rparr>)
          else (Empty 200, s))"

text \<open>
  \<^verbatim>\<open>upload\<close>, lines 158 to 165: the entitlement check. Python's \<^verbatim>\<open>and\<close> reads
  \<^verbatim>\<open>rec["subscribed"]\<close> only when \<^verbatim>\<open>rec["used"] >= FREE_LIMIT\<close>.
\<close>

datatype gate = Allowed | QuotaExceeded string

definition upload_gate ::
  "'w stripe_api \<Rightarrow> string \<Rightarrow> 'w world \<Rightarrow> (error + gate) \<times> 'w world" where
  "upload_gate api user_id s =
     (case get_user_record (usage_file s) user_id of (data, rec) \<Rightarrow>
        (case used rec of
           None \<Rightarrow> (Inl (KeyError ''used''), s)
         | Some n \<Rightarrow>
             if n \<ge> FREE_LIMIT then
               (case subscribed rec of
                  None \<Rightarrow> (Inl (KeyError ''subscribed''), s)
                | Some b \<Rightarrow>
                    if \<not> b then
                      (case create_stripe_session api user_id s of
                         (Inl e, s') \<Rightarrow> (Inl e, s')
                       | (Inr sess, s') \<Rightarrow> (Inr (QuotaExceeded (url sess)), s'))
                    else (Inr Allowed, s))
             else (Inr Allowed, s)))"

text \<open>
  The rest of \<^verbatim>\<open>upload\<close> unpacks the archive and calls the completion API. What that
  yields is an input: no zip file, an exception on the way, or the number of files
  refactored.
\<close>

datatype work = NotZip | Crashed | Refactored nat

record upload_request =
  header_user_id :: "string option"
  work :: work

definition upload ::
  "'w stripe_api \<Rightarrow> upload_request \<Rightarrow> 'w world \<Rightarrow> (error + response) \<times> 'w world" where
  "upload api req s =
     (if falsy (header_user_id req) then (Inr (JsonError ''Missing User-ID header'' 400), s)
      else case upload_gate api (the (header_user_id req)) s of
             (Inl e, s') \<Rightarrow> (Inl e, s')
           | (Inr (QuotaExceeded u), s') \<Rightarrow>
               (Inr (PaymentRequired ''Free limit reached. Subscribe to continue.'' u), s')
           | (Inr Allowed, s') \<Rightarrow>
               (case work req of
                  NotZip \<Rightarrow> (Inr (JsonError ''Upload a valid .zip'' 400), s')
                | Crashed \<Rightarrow> (Inl ProcessingError, s')
                | Refactored count \<Rightarrow>
                    if count = 0 then (Inr (JsonError ''No refactor output'' 500), s')
                    else (case increment_usage (usage_file s') (the (header_user_id req)) (int count) of
                            Inl e \<Rightarrow> (Inl e, s')
                          | Inr f' \<Rightarrow> (Inr SendFile, s'\<lparr>usage_file := f'\<rparr>))))"

subsection \<open>The service as a whole\<close>

datatype request =
    PostCreateCheckoutSession "string option"
  | GetCheckout "string option"
  | PostWebhook "event option"
  | PostUpload upload_request

fun handle :: "'w stripe_api \<Rightarrow> request \<Rightarrow> 'w world \<Rightarrow> (error + response) \<times> 'w world" where
  "handle api (PostCreateCheckoutSession u) s = create_checkout_session api u s"
| "handle api (GetCheckout u) s = checkout_redirect api u s"
| "handle api (PostWebhook ev) s =
     (case stripe_webhook ev s of (r, s') \<Rightarrow> (Inr r, s'))"
| "handle api (PostUpload req) s = upload api req s"

text \<open>
  A processor for running the model on concrete inputs: the n-th call made to it
  creates the customer \<^verbatim>\<open>cus_\<close> followed by n strokes, and a session's URL ends in the
  customer it is bound to.
\<close>

definition test_stripe :: "nat stripe_api" where
  "test_stripe =
     \<lparr>Customer_create = (\<lambda>email n. (Some (''cus_'' @ replicate n (CHR ''I'')), Suc n)),
      Session_create = (\<lambda>cid n. (Some (Session (''https://checkout.test/'' @ cid)), Suc n))\<rparr>"

definition alice :: string where
  "alice = ''a@x.com''"

text \<open>A run of requests, each on the state the one before left.\<close>

fun run ::
  "'w stripe_api \<Rightarrow> request list \<Rightarrow> 'w world \<Rightarrow> (error + response) list \<times> 'w world" where
  "run api [] s = ([], s)"
| "run api (r # rs) s =
     (case handle api r s of (out, s') \<Rightarrow>
        (case run api rs s' of (outs, s'') \<Rightarrow> (out # outs, s'')))"

subsection \<open>Inputs used in the examples\<close>

text \<open>
  The payment processor behaves when no call raises and every session it creates has a
  non-empty URL.
\<close>

definition stripe_ok :: "'w stripe_api \<Rightarrow> bool" where
  "stripe_ok api \<longleftrightarrow>
     (\<forall>e w. fst (Customer_create api e w) \<noteq> None) \<and>
     (\<forall>c w. case fst (Session_create api c w) of None \<Rightarrow> False | Some sess \<Rightarrow> url sess \<noteq> [])"

text \<open>
  Two more processors: one whose calls all raise, and one whose sessions carry an empty
  URL.
\<close>

definition down_stripe :: "nat stripe_api" where
  "down_stripe =
     \<lparr>Customer_create = (\<lambda>email n. (None, Suc n)),
      Session_create = (\<lambda>cid n. (None, Suc n))\<rparr>"

definition blank_stripe :: "nat stripe_api" where
  "blank_stripe =
     \<lparr>Customer_create = (\<lambda>email n. (Some (''cus_'' @ replicate n (CHR ''I'')), Suc n)),
      Session_create = (\<lambda>cid n. (Some (Session []), Suc n))\<rparr>"

definition bob :: string where
  "bob = ''b@x.com''"

definition at_limit :: user_record where
  "at_limit = \<lparr>used = Some 3, subscribed = Some False, stripe_customer_id = None\<rparr>"

definition completed :: "string \<Rightarrow> event" where
  "completed c = \<lparr>etype = ''checkout.session.completed'', customer = Some c\<rparr>"

definition one_file :: request where
  "one_file = PostUpload \<lparr>header_user_id = Some alice, work = Refactored 1\<rparr>"

section \<open>Properties\<close>

subsection \<open>Persistence helpers\<close>

lemmas eval_defs =
  upload_def upload_gate_def create_stripe_session_def create_session_def
  create_checkout_session_def checkout_redirect_def stripe_webhook_def
  increment_usage_def mark_subscribed_def get_user_record_def setdefault_def
  load_data_def save_data_def default_record_def empty_record_def falsy_def
  FREE_LIMIT_def test_stripe_def alice_def

lemma load_save [simp]: "load_data (save_data d) = d"
  by (simp add: load_data_def save_data_def)

lemma increment_usage_file:
  "increment_usage f u n = Inr f' \<Longrightarrow> f' = Some (load_data f)"
  by (auto simp: increment_usage_def save_data_def Let_def split: prod.splits option.splits)

text \<open>
  Claim C1: after \<^verbatim>\<open>increment_usage(u, n)\<close>, reading u's record shows \<^verbatim>\<open>used\<close>
  increased by n. In the code the sum is written into the dictionary that
  \<^verbatim>\<open>get_user_record\<close> loaded, and \<^verbatim>\<open>save_data(load_data())\<close> then writes a second,
  fresh copy of the document: by \<open>increment_usage_file\<close> the document never changes.
  For the stored record \<^verbatim>\<open>{used: 0, subscribed: false}\<close> and n = 1 the call succeeds,
  the document is what it was, and the next read shows \<^verbatim>\<open>used\<close> = 0, not 1.
\<close>

theorem increment_usage_not_recorded:
  "increment_usage (Some [(alice, default_record)]) alice 1 = Inr (Some [(alice, default_record)])
   \<and> used (snd (get_user_record (Some [(alice, default_record)]) alice)) = Some 0"
  by (simp add: eval_defs)

subsection \<open>The entitlement decision\<close>

lemma create_session_ok:
  assumes "stripe_ok api"
  shows "\<exists>sess s'. create_session api cid s = (Inr sess, s') \<and> url sess \<noteq> []"
proof -
  obtain r w where sc: "Session_create api cid (stripe s) = (r, w)"
    by (cases "Session_create api cid (stripe s)")
  from assms have "case fst (Session_create api cid (stripe s)) of None \<Rightarrow> False | Some sess \<Rightarrow> url sess \<noteq> []"
    unfolding stripe_ok_def by blast
  with sc obtain sess where "r = Some sess" "url sess \<noteq> []"
    by (cases r) auto
  with sc show ?thesis by (simp add: create_session_def)
qed

lemma create_stripe_session_ok:
  assumes "stripe_ok api"
  shows "\<exists>sess s'. create_stripe_session api u s = (Inr sess, s') \<and> url sess \<noteq> []"
proof -
  obtain d rec where sd: "setdefault (load_data (usage_file s)) u empty_record = (d, rec)"
    by (cases "setdefault (load_data (usage_file s)) u empty_record")
  show ?thesis
  proof (cases "stripe_customer_id rec")
    case None
    obtain r w where cc: "Customer_create api u (stripe s) = (r, w)"
      by (cases "Customer_create api u (stripe s)")
    from assms have "fst (Customer_create api u (stripe s)) \<noteq> None"
      unfolding stripe_ok_def by blast
    with cc obtain cid where r: "r = Some cid" by (cases r) auto
    from sd None cc r have "create_stripe_session api u s =
        create_session api cid \<lparr>usage_file = save_data
           (AList.update u (rec\<lparr>stripe_customer_id := Some cid\<rparr>) d), stripe = w\<rparr>"
      by (simp add: create_stripe_session_def)
    with create_session_ok [OF assms] show ?thesis by simp
  next
    case (Some cid)
    with sd have "create_stripe_session api u s = create_session api cid s"
      by (simp add: create_stripe_session_def)
    with create_session_ok [OF assms] show ?thesis by simp
  qed
qed

lemma test_stripe_ok: "stripe_ok test_stripe"
  by (simp add: stripe_ok_def test_stripe_def)

text \<open>
  Claim C3: from an empty store, three cycles of entitlement check and
  \<^verbatim>\<open>increment_usage(1)\<close> are allowed and leave \<^verbatim>\<open>used\<close> at 3, and a fourth check
  answers \<open>QuotaExceeded\<close>. Run on the code, the three uploads are served, the document
  is then the empty dictionary, the user's record reads \<^verbatim>\<open>used\<close> = 0, and the fourth
  check answers \<open>Allowed\<close>: the usage is lost as in C1.
\<close>

theorem scenario_used_stays_zero:
  "run test_stripe [one_file, one_file, one_file] \<lparr>usage_file = None, stripe = 0\<rparr>
     = ([Inr SendFile, Inr SendFile, Inr SendFile], \<lparr>usage_file = Some [], stripe = 0\<rparr>)
   \<and> used (snd (get_user_record (Some []) alice)) = Some 0
   \<and> upload_gate test_stripe alice \<lparr>usage_file = Some [], stripe = 0\<rparr>
     = (Inr Allowed, \<lparr>usage_file = Some [], stripe = 0\<rparr>)"
  by (simp add: eval_defs one_file_def)

subsection \<open>What the checkout helper writes\<close>

lemma setdefault_snd:
  "snd (setdefault d k v) = (case map_of d k of Some x \<Rightarrow> x | None \<Rightarrow> v)"
  by (simp add: setdefault_def split: option.splits)

lemma map_of_setdefault:
  "map_of (fst (setdefault d k v)) = (map_of d)(k \<mapsto> snd (setdefault d k v))"
  by (auto simp: setdefault_def fun_eq_iff map_add_def split: option.splits)

lemma create_session_file:
  "create_session api cid s = (r, s') \<Longrightarrow> usage_file s' = usage_file s"
  by (auto simp: create_session_def split: prod.splits option.splits)

lemma css_cases:
  assumes "create_stripe_session api u s = (r, s')"
    and "setdefault (load_data (usage_file s)) u empty_record = (d, rec)"
  shows "usage_file s' = usage_file s \<or>
     (\<exists>cid. stripe_customer_id rec = None \<and>
        usage_file s' = Some (AList.update u (rec\<lparr>stripe_customer_id := Some cid\<rparr>) d))"
proof (cases "stripe_customer_id rec")
  case None
  obtain x w where cc: "Customer_create api u (stripe s) = (x, w)"
    by (cases "Customer_create api u (stripe s)")
  show ?thesis
  proof (cases x)
    case None
    with cc \<open>stripe_customer_id rec = None\<close> assms show ?thesis
      by (auto simp: create_stripe_session_def)
  next
    case (Some cid)
    with cc \<open>stripe_customer_id rec = None\<close> assms
    have "create_session api cid \<lparr>usage_file = save_data
           (AList.update u (rec\<lparr>stripe_customer_id := Some cid\<rparr>) d), stripe = w\<rparr> = (r, s')"
      by (simp add: create_stripe_session_def)
    from create_session_file [OF this] have
      "usage_file s' = Some (AList.update u (rec\<lparr>stripe_customer_id := Some cid\<rparr>) d)"
      by (simp add: save_data_def)
    with \<open>stripe_customer_id rec = None\<close> show ?thesis by blast
  qed
next
  case (Some cid)
  with assms have "create_session api cid s = (r, s')"
    by (simp add: create_stripe_session_def)
  from create_session_file [OF this] show ?thesis by simp
qed

lemma css_frame:
  assumes "create_stripe_session api u s = (r, s')"
  shows "map_of (load_data (usage_file s')) = map_of (load_data (usage_file s)) \<or>
     (\<exists>cid rec. stripe_customer_id rec = None \<and>
        rec = (case map_of (load_data (usage_file s)) u of Some x \<Rightarrow> x | None \<Rightarrow> empty_record) \<and>
        map_of (load_data (usage_file s')) =
          (map_of (load_data (usage_file s)))(u \<mapsto> rec\<lparr>stripe_customer_id := Some cid\<rparr>))"
proof -
  obtain d rec where sd: "setdefault (load_data (usage_file s)) u empty_record = (d, rec)"
    by (cases "setdefault (load_data (usage_file s)) u empty_record")
  from sd have rec: "rec = (case map_of (load_data (usage_file s)) u of
      Some x \<Rightarrow> x | None \<Rightarrow> empty_record)"
    using setdefault_snd [of "load_data (usage_file s)" u empty_record] by simp
  from sd have d: "map_of d = (map_of (load_data (usage_file s)))(u \<mapsto> rec)"
    using map_of_setdefault [of "load_data (usage_file s)" u empty_record] by simp
  from css_cases [OF assms sd] show ?thesis
  proof
    assume "usage_file s' = usage_file s"
    then show ?thesis by simp
  next
    assume "\<exists>cid. stripe_customer_id rec = None \<and>
        usage_file s' = Some (AList.update u (rec\<lparr>stripe_customer_id := Some cid\<rparr>) d)"
    then obtain cid where n: "stripe_customer_id rec = None"
      and f: "usage_file s' = Some (AList.update u (rec\<lparr>stripe_customer_id := Some cid\<rparr>) d)"
      by blast
    from f d have "map_of (load_data (usage_file s')) =
          (map_of (load_data (usage_file s)))(u \<mapsto> rec\<lparr>stripe_customer_id := Some cid\<rparr>)"
      by (simp add: load_data_def update_conv')
    with n rec show ?thesis by blast
  qed
qed

lemma css_keeps_id:
  assumes "create_stripe_session api u s = (r, s')"
    and "map_of (load_data (usage_file s)) v = Some rec"
    and "stripe_customer_id rec = Some c"
  shows "map_of (load_data (usage_file s')) v = Some rec"
  using css_frame [OF assms(1)] assms(2,3) by (cases "v = u") auto

lemma css_known_customer:
  assumes "map_of (load_data (usage_file s)) u = Some rec"
    and "stripe_customer_id rec = Some c"
  shows "usage_file (snd (create_stripe_session api u s)) = usage_file s"
proof -
  from assms have "create_stripe_session api u s = create_session api c s"
    by (simp add: create_stripe_session_def setdefault_def)
  then show ?thesis
    using create_session_file [of api c s] by (cases "create_session api c s") simp
qed

lemma css_stored:
  assumes "create_stripe_session api u s = (Inr sess, s')"
  shows "\<exists>c rec. map_of (load_data (usage_file s')) u = Some rec \<and> stripe_customer_id rec = Some c"
proof -
  obtain d rec where sd: "setdefault (load_data (usage_file s)) u empty_record = (d, rec)"
    by (cases "setdefault (load_data (usage_file s)) u empty_record")
  show ?thesis
  proof (cases "stripe_customer_id rec")
    case None
    obtain x w where cc: "Customer_create api u (stripe s) = (x, w)"
      by (cases "Customer_create api u (stripe s)")
    from assms sd None cc obtain cid where x: "x = Some cid"
      by (cases x) (auto simp: create_stripe_session_def)
    with assms sd None cc
    have "create_session api cid \<lparr>usage_file = save_data
           (AList.update u (rec\<lparr>stripe_customer_id := Some cid\<rparr>) d), stripe = w\<rparr>
          = (Inr sess, s')"
      by (simp add: create_stripe_session_def)
    from create_session_file [OF this] have
      "usage_file s' = Some (AList.update u (rec\<lparr>stripe_customer_id := Some cid\<rparr>) d)"
      by (simp add: save_data_def)
    then have "map_of (load_data (usage_file s')) u = Some (rec\<lparr>stripe_customer_id := Some cid\<rparr>)"
      by (simp add: load_data_def update_conv')
    then show ?thesis by simp
  next
    case (Some cid)
    with sd have m: "map_of (load_data (usage_file s)) u = Some rec"
      by (auto simp: setdefault_def empty_record_def split: option.splits)
    from css_keeps_id [OF assms m Some] Some show ?thesis by blast
  qed
qed

lemma css_error:
  "create_stripe_session api u s = (Inl e, s') \<Longrightarrow> e = StripeError"
  by (auto simp: create_stripe_session_def create_session_def
      split: prod.splits option.splits)

lemma css_unseen:
  assumes "map_of (load_data (usage_file s)) u = None"
    and "create_stripe_session api u s = (Inr sess, s')"
  shows "\<exists>cid. map_of (load_data (usage_file s')) u =
     Some (empty_record\<lparr>stripe_customer_id := Some cid\<rparr>)"
proof -
  from css_stored [OF assms(2)] assms(1)
  have "map_of (load_data (usage_file s')) \<noteq> map_of (load_data (usage_file s))" by auto
  with css_frame [OF assms(2)] assms(1) show ?thesis by auto
qed

lemma create_session_origin:
  "create_session api cid s = (Inr sess, s') \<Longrightarrow>
   Session_create api cid (stripe s) = (Some sess, stripe s') \<and> usage_file s' = usage_file s"
  by (auto simp: create_session_def split: prod.splits option.splits)

lemma css_session:
  assumes "create_stripe_session api u s = (Inr sess, s')"
  shows "\<exists>cid w rec'. Session_create api cid w = (Some sess, stripe s') \<and>
     map_of (load_data (usage_file s')) u = Some rec' \<and> stripe_customer_id rec' = Some cid \<and>
     (w = stripe s \<or> Customer_create api u (stripe s) = (Some cid, w))"
proof -
  obtain d rec where sd: "setdefault (load_data (usage_file s)) u empty_record = (d, rec)"
    by (cases "setdefault (load_data (usage_file s)) u empty_record")
  show ?thesis
  proof (cases "stripe_customer_id rec")
    case None
    obtain x w where cc: "Customer_create api u (stripe s) = (x, w)"
      by (cases "Customer_create api u (stripe s)")
    from assms sd None cc obtain cid where x: "x = Some cid"
      by (cases x) (auto simp: create_stripe_session_def)
    with assms sd None cc
    have "create_session api cid \<lparr>usage_file = save_data
           (AList.update u (rec\<lparr>stripe_customer_id := Some cid\<rparr>) d), stripe = w\<rparr>
          = (Inr sess, s')"
      by (simp add: create_stripe_session_def)
    from create_session_origin [OF this] have
      o: "Session_create api cid w = (Some sess, stripe s')" and
      f: "usage_file s' = Some (AList.update u (rec\<lparr>stripe_customer_id := Some cid\<rparr>) d)"
      by (simp_all add: save_data_def)
    from f have "map_of (load_data (usage_file s')) u = Some (rec\<lparr>stripe_customer_id := Some cid\<rparr>)"
      by (simp add: load_data_def update_conv')
    with o cc x show ?thesis by auto
  next
    case (Some cid)
    with sd have m: "map_of (load_data (usage_file s)) u = Some rec"
      by (auto simp: setdefault_def empty_record_def split: option.splits)
    from Some sd assms have "create_session api cid s = (Inr sess, s')"
      by (simp add: create_stripe_session_def)
    from create_session_origin [OF this] m Some show ?thesis by auto
  qed
qed

lemma css_write:
  assumes "create_stripe_session api u s = (r, s')"
    and "map_of (load_data (usage_file s)) u = Some rec"
  shows "usage_file s' = usage_file s \<or>
     (\<exists>cid. stripe_customer_id rec = None \<and>
        fst (Customer_create api u (stripe s)) = Some cid \<and>
        usage_file s' =
          Some (AList.update u (rec\<lparr>stripe_customer_id := Some cid\<rparr>) (load_data (usage_file s))))"
proof -
  from assms(2) have sd:
    "setdefault (load_data (usage_file s)) u empty_record = (load_data (usage_file s), rec)"
    by (simp add: setdefault_def)
  show ?thesis
  proof (cases "stripe_customer_id rec")
    case None
    obtain x w where cc: "Customer_create api u (stripe s) = (x, w)"
      by (cases "Customer_create api u (stripe s)")
    show ?thesis
    proof (cases x)
      case None
      with cc \<open>stripe_customer_id rec = None\<close> assms(1) sd show ?thesis
        by (auto simp: create_stripe_session_def)
    next
      case (Some cid)
      with cc \<open>stripe_customer_id rec = None\<close> assms(1) sd
      have "create_session api cid \<lparr>usage_file = save_data
             (AList.update u (rec\<lparr>stripe_customer_id := Some cid\<rparr>) (load_data (usage_file s))),
             stripe = w\<rparr> = (r, s')"
        by (simp add: create_stripe_session_def)
      from create_session_file [OF this] have
        "usage_file s' =
           Some (AList.update u (rec\<lparr>stripe_customer_id := Some cid\<rparr>) (load_data (usage_file s)))"
        by (simp add: save_data_def)
      with \<open>stripe_customer_id rec = None\<close> cc Some show ?thesis by simp
    qed
  next
    case (Some cid)
    with assms(1) sd have "create_session api cid s = (r, s')"
      by (simp add: create_stripe_session_def)
    from create_session_file [OF this] show ?thesis by simp
  qed
qed

lemma css_writes:
  assumes "create_stripe_session api u s = (r, s')"
    and "map_of (load_data (usage_file s)) u = Some rec"
    and "stripe_customer_id rec = None"
    and "Customer_create api u (stripe s) = (Some cid, w)"
  shows "usage_file s' =
     Some (AList.update u (rec\<lparr>stripe_customer_id := Some cid\<rparr>) (load_data (usage_file s)))"
proof -
  from assms have "create_session api cid \<lparr>usage_file = save_data
       (AList.update u (rec\<lparr>stripe_customer_id := Some cid\<rparr>) (load_data (usage_file s))),
       stripe = w\<rparr> = (r, s')"
    by (simp add: create_stripe_session_def setdefault_def)
  from create_session_file [OF this] show ?thesis by (simp add: save_data_def)
qed

lemma gate_exceed:
  assumes "snd (get_user_record (usage_file s) u) = rec"
    and "used rec = Some n" and "n \<ge> FREE_LIMIT" and "subscribed rec = Some False"
  shows "upload_gate api u s =
     (case create_stripe_session api u s of
        (Inl e, s') \<Rightarrow> (Inl e, s')
      | (Inr sess, s') \<Rightarrow> (Inr (QuotaExceeded (url sess)), s'))"
  using assms by (auto simp: upload_gate_def split: prod.splits)

lemma gate_cases:
  assumes "upload_gate api u s = (out, s')"
  shows "(s' = s \<and> (out = Inr Allowed \<or> (\<exists>k. out = Inl (KeyError k))) \<and>
          \<not> (\<exists>rec n. map_of (load_data (usage_file s)) u = Some rec \<and> used rec = Some n \<and>
                 n \<ge> FREE_LIMIT \<and> subscribed rec = Some False)) \<or>
     (\<exists>r rec n. create_stripe_session api u s = (r, s') \<and>
        map_of (load_data (usage_file s)) u = Some rec \<and> used rec = Some n \<and>
        n \<ge> FREE_LIMIT \<and> subscribed rec = Some False \<and>
        out = (case r of Inl e \<Rightarrow> Inl e | Inr sess \<Rightarrow> Inr (QuotaExceeded (url sess))))"
proof (cases "map_of (load_data (usage_file s)) u")
  case None
  with assms show ?thesis
    by (auto simp: upload_gate_def get_user_record_def setdefault_def default_record_def
        FREE_LIMIT_def)
next
  case (Some rec)
  with assms show ?thesis
    by (auto simp: upload_gate_def get_user_record_def setdefault_def
        split: prod.splits option.splits if_splits sum.splits)
qed

text \<open>
  Claim C2: for the record \<open>rec\<close> that the entitlement check reads, holding
  \<^verbatim>\<open>used\<close> = n and \<^verbatim>\<open>subscribed\<close> = b. As stated (with n at least \<^verbatim>\<open>FREE_LIMIT\<close>
  and b false the check answers \<open>QuotaExceeded\<close> with a non-empty checkout URL) the
  claim fails when a call to the payment processor raises, and the check passes on
  whatever URL the processor returns. What holds: with n at least \<^verbatim>\<open>FREE_LIMIT\<close> and b
  false the check is never \<open>Allowed\<close> and its outcome is the checkout helper's, a
  \<open>QuotaExceeded\<close> carrying the URL of the session the helper returned or the
  processor's error; every \<open>QuotaExceeded\<close> arises this way, and its URL is that of a
  session the processor created for the billing account stored in the user's record;
  the check raises no other error for a record holding both keys; with a processor that
  answers and gives non-empty URLs (\<open>stripe_ok\<close>) the answer is \<open>QuotaExceeded\<close> with a
  non-empty URL; in every other case the check answers \<open>Allowed\<close> and changes nothing.
\<close>

theorem upload_gate_decision:
  assumes "snd (get_user_record (usage_file s) u) = rec"
    and "used rec = Some n" and "subscribed rec = Some b"
  shows "(n \<ge> FREE_LIMIT \<and> \<not> b \<longrightarrow>
            upload_gate api u s =
              (case create_stripe_session api u s of
                 (Inl e, s') \<Rightarrow> (Inl e, s')
               | (Inr sess, s') \<Rightarrow> (Inr (QuotaExceeded (url sess)), s'))) \<and>
         (\<forall>link s'. upload_gate api u s = (Inr (QuotaExceeded link), s') \<longrightarrow>
            n \<ge> FREE_LIMIT \<and> \<not> b \<and>
            (\<exists>sess cid w rec'. link = url sess \<and>
               Session_create api cid w = (Some sess, stripe s') \<and>
               map_of (load_data (usage_file s')) u = Some rec' \<and>
               stripe_customer_id rec' = Some cid \<and>
               (w = stripe s \<or> Customer_create api u (stripe s) = (Some cid, w)))) \<and>
         (\<forall>e s'. upload_gate api u s = (Inl e, s') \<longrightarrow> e = StripeError) \<and>
         (n \<ge> FREE_LIMIT \<and> \<not> b \<longrightarrow> stripe_ok api \<longrightarrow>
            (\<exists>link s'. upload_gate api u s = (Inr (QuotaExceeded link), s') \<and> link \<noteq> [])) \<and>
         (n \<ge> FREE_LIMIT \<and> \<not> b \<longrightarrow> fst (upload_gate api u s) \<noteq> Inr Allowed) \<and>
         (\<not> (n \<ge> FREE_LIMIT \<and> \<not> b) \<longrightarrow> upload_gate api u s = (Inr Allowed, s))"
proof (cases "n \<ge> FREE_LIMIT \<and> \<not> b")
  case True
  with assms have g: "upload_gate api u s =
     (case create_stripe_session api u s of
        (Inl e, s') \<Rightarrow> (Inl e, s')
      | (Inr sess, s') \<Rightarrow> (Inr (QuotaExceeded (url sess)), s'))"
    using gate_exceed [of s u rec n api] by simp
  obtain r t where c: "create_stripe_session api u s = (r, t)"
    by (cases "create_stripe_session api u s")
  have 2: "\<forall>link s'. upload_gate api u s = (Inr (QuotaExceeded link), s') \<longrightarrow>
            n \<ge> FREE_LIMIT \<and> \<not> b \<and>
            (\<exists>sess cid w rec'. link = url sess \<and>
               Session_create api cid w = (Some sess, stripe s') \<and>
               map_of (load_data (usage_file s')) u = Some rec' \<and>
               stripe_customer_id rec' = Some cid \<and>
               (w = stripe s \<or> Customer_create api u (stripe s) = (Some cid, w)))"
  proof (intro allI impI)
    fix link s' assume q: "upload_gate api u s = (Inr (QuotaExceeded link), s')"
    with g c obtain sess where r: "r = Inr sess" "link = url sess" "t = s'"
      by (cases r) auto
    with c have "create_stripe_session api u s = (Inr sess, s')" by simp
    from css_session [OF this] r(2) True
    show "n \<ge> FREE_LIMIT \<and> \<not> b \<and>
            (\<exists>sess cid w rec'. link = url sess \<and>
               Session_create api cid w = (Some sess, stripe s') \<and>
               map_of (load_data (usage_file s')) u = Some rec' \<and>
               stripe_customer_id rec' = Some cid \<and>
               (w = stripe s \<or> Customer_create api u (stripe s) = (Some cid, w)))"
      by blast
  qed
  have 3: "\<forall>e s'. upload_gate api u s = (Inl e, s') \<longrightarrow> e = StripeError"
    using g c css_error [of api u s] by (cases r) auto
  have 4: "\<exists>link s'. upload_gate api u s = (Inr (QuotaExceeded link), s') \<and> link \<noteq> []"
    if ok: "stripe_ok api"
  proof -
    from create_stripe_session_ok [OF ok, of u s]
    obtain sess s' where "create_stripe_session api u s = (Inr sess, s')" "url sess \<noteq> []"
      by blast
    with g show ?thesis by simp
  qed
  have 5: "fst (upload_gate api u s) \<noteq> Inr Allowed"
    using g c by (cases r) auto
  from True g 2 3 4 5 show ?thesis by blast
next
  case False
  with assms have a: "upload_gate api u s = (Inr Allowed, s)"
    by (auto simp: upload_gate_def split: prod.splits)
  with False show ?thesis by auto
qed

theorem upload_gate_decision_witness:
  "stripe_ok test_stripe \<and>
   snd (get_user_record (Some [(alice, at_limit)]) alice) = at_limit \<and>
   used at_limit = Some 3 \<and> subscribed at_limit = Some False \<and>
   upload_gate test_stripe alice \<lparr>usage_file = Some [(alice, at_limit)], stripe = 0\<rparr>
     = (Inr (QuotaExceeded ''https://checkout.test/cus_''),
        \<lparr>usage_file = Some [(alice, at_limit\<lparr>stripe_customer_id := Some ''cus_''\<rparr>)],
         stripe = 2\<rparr>) \<and>
   (\<exists>sess cid w rec'. ''https://checkout.test/cus_'' = url sess \<and>
       Session_create test_stripe cid w = (Some sess, 2) \<and>
       map_of [(alice, at_limit\<lparr>stripe_customer_id := Some ''cus_''\<rparr>)] alice = Some rec' \<and>
       stripe_customer_id rec' = Some cid \<and>
       (w = 0 \<or> Customer_create test_stripe alice 0 = (Some cid, w))) \<and>
   upload_gate test_stripe alice
       \<lparr>usage_file = Some [(alice, at_limit\<lparr>subscribed := Some True\<rparr>)], stripe = 0\<rparr>
     = (Inr Allowed,
        \<lparr>usage_file = Some [(alice, at_limit\<lparr>subscribed := Some True\<rparr>)], stripe = 0\<rparr>)"
proof -
  let ?s = "\<lparr>usage_file = Some [(alice, at_limit)], stripe = 0::nat\<rparr>"
  let ?t = "\<lparr>usage_file = Some [(alice, at_limit\<lparr>stripe_customer_id := Some ''cus_''\<rparr>)],
         stripe = 2::nat\<rparr>"
  let ?p = "\<lparr>usage_file = Some [(alice, at_limit\<lparr>subscribed := Some True\<rparr>)], stripe = 0::nat\<rparr>"
  have ok: "stripe_ok test_stripe" by (rule test_stripe_ok)
  have r: "snd (get_user_record (usage_file ?s) alice) = at_limit"
    by (simp add: get_user_record_def setdefault_def load_data_def)
  have q: "snd (get_user_record (usage_file ?p) alice) = at_limit\<lparr>subscribed := Some True\<rparr>"
    by (simp add: get_user_record_def setdefault_def load_data_def)
  have f: "used at_limit = Some 3" "subscribed at_limit = Some False"
    "used (at_limit\<lparr>subscribed := Some True\<rparr>) = Some 3"
    "subscribed (at_limit\<lparr>subscribed := Some True\<rparr>) = Some True"
    by (simp_all add: at_limit_def)
  have c: "create_stripe_session test_stripe alice ?s
      = (Inr (Session ''https://checkout.test/cus_''), ?t)"
    by (simp add: eval_defs at_limit_def)
  have lim: "FREE_LIMIT \<le> 3 \<and> \<not> False" by (simp add: FREE_LIMIT_def)
  note d = upload_gate_decision [OF r f(1,2), of test_stripe]
  from d lim c have g: "upload_gate test_stripe alice ?s
      = (Inr (QuotaExceeded ''https://checkout.test/cus_''), ?t)"
    by simp
  from d g have o: "\<exists>sess cid w rec'. ''https://checkout.test/cus_'' = url sess \<and>
       Session_create test_stripe cid w = (Some sess, stripe ?t) \<and>
       map_of (load_data (usage_file ?t)) alice = Some rec' \<and>
       stripe_customer_id rec' = Some cid \<and>
       (w = stripe ?s \<or> Customer_create test_stripe alice (stripe ?s) = (Some cid, w))"
    by blast
  from upload_gate_decision [OF q f(3,4), of test_stripe]
  have a: "upload_gate test_stripe alice ?p = (Inr Allowed, ?p)" by simp
  from ok r f g o a show ?thesis by (simp add: load_data_def)
qed

theorem gate_depends_on_processor:
  "upload_gate down_stripe alice \<lparr>usage_file = Some [(alice, at_limit)], stripe = 0\<rparr>
     = (Inl StripeError, \<lparr>usage_file = Some [(alice, at_limit)], stripe = 1\<rparr>)
   \<and> upload_gate blank_stripe alice \<lparr>usage_file = Some [(alice, at_limit)], stripe = 0\<rparr>
     = (Inr (QuotaExceeded []),
        \<lparr>usage_file = Some [(alice, at_limit\<lparr>stripe_customer_id := Some ''cus_''\<rparr>)],
         stripe = 2\<rparr>)
   \<and> used at_limit = Some 3 \<and> subscribed at_limit = Some False"
  by (simp add: eval_defs at_limit_def down_stripe_def blank_stripe_def)

text \<open>
  Claim C4: the entitlement check changes no stored record. That fails where the check
  finds the quota exceeded: it calls the checkout helper, which stores a new billing
  account in the record of a user who has none. What holds: the check never changes
  \<^verbatim>\<open>used\<close> or \<^verbatim>\<open>subscribed\<close> of any record, never creates or deletes a record and
  never touches another user's record; it writes nothing when it answers \<open>Allowed\<close> or
  fails on a lookup, and nothing for a user whose record already holds a billing
  account. The document changes only when the stored record has \<^verbatim>\<open>used\<close> at the limit
  or above, \<^verbatim>\<open>subscribed\<close> false and no billing account, and the processor has created
  a customer: then, and always then, the document saved is the old one with that
  customer's id put into the user's record. Whenever the check answers
  \<open>QuotaExceeded\<close>, the user's record holds a billing account.
\<close>

theorem upload_gate_frame:
  assumes "upload_gate api u s = (out, s')"
  shows "(out = Inr Allowed \<or> (\<exists>k. out = Inl (KeyError k)) \<longrightarrow> s' = s) \<and>
     (\<forall>v. v \<noteq> u \<longrightarrow>
        map_of (load_data (usage_file s')) v = map_of (load_data (usage_file s)) v) \<and>
     map_option used (map_of (load_data (usage_file s')) u)
       = map_option used (map_of (load_data (usage_file s)) u) \<and>
     map_option subscribed (map_of (load_data (usage_file s')) u)
       = map_option subscribed (map_of (load_data (usage_file s)) u) \<and>
     (\<forall>rec c. map_of (load_data (usage_file s)) u = Some rec \<and> stripe_customer_id rec = Some c
        \<longrightarrow> usage_file s' = usage_file s) \<and>
     (usage_file s' \<noteq> usage_file s \<longrightarrow>
        (\<exists>rec n cid. map_of (load_data (usage_file s)) u = Some rec \<and> used rec = Some n \<and>
           n \<ge> FREE_LIMIT \<and> subscribed rec = Some False \<and> stripe_customer_id rec = None \<and>
           fst (Customer_create api u (stripe s)) = Some cid \<and>
           usage_file s' = Some (AList.update u (rec\<lparr>stripe_customer_id := Some cid\<rparr>)
                                   (load_data (usage_file s))))) \<and>
     (\<forall>rec n cid w. map_of (load_data (usage_file s)) u = Some rec \<and> used rec = Some n \<and>
           n \<ge> FREE_LIMIT \<and> subscribed rec = Some False \<and> stripe_customer_id rec = None \<and>
           Customer_create api u (stripe s) = (Some cid, w) \<longrightarrow>
           usage_file s' = Some (AList.update u (rec\<lparr>stripe_customer_id := Some cid\<rparr>)
                                   (load_data (usage_file s)))) \<and>
     (\<forall>q. out = Inr (QuotaExceeded q) \<longrightarrow>
        (\<exists>rec cid. map_of (load_data (usage_file s')) u = Some rec \<and>
           stripe_customer_id rec = Some cid))"
proof -
  from gate_cases [OF assms] show ?thesis
  proof
    assume "s' = s \<and> (out = Inr Allowed \<or> (\<exists>k. out = Inl (KeyError k))) \<and>
          \<not> (\<exists>rec n. map_of (load_data (usage_file s)) u = Some rec \<and> used rec = Some n \<and>
                 n \<ge> FREE_LIMIT \<and> subscribed rec = Some False)"
    then show ?thesis by auto
  next
    assume "\<exists>r rec n. create_stripe_session api u s = (r, s') \<and>
        map_of (load_data (usage_file s)) u = Some rec \<and> used rec = Some n \<and>
        n \<ge> FREE_LIMIT \<and> subscribed rec = Some False \<and>
        out = (case r of Inl e \<Rightarrow> Inl e | Inr sess \<Rightarrow> Inr (QuotaExceeded (url sess)))"
    then obtain r rec n where c: "create_stripe_session api u s = (r, s')"
      and m: "map_of (load_data (usage_file s)) u = Some rec"
      and x: "used rec = Some n" "n \<ge> FREE_LIMIT" "subscribed rec = Some False"
      and o: "out = (case r of Inl e \<Rightarrow> Inl e | Inr sess \<Rightarrow> Inr (QuotaExceeded (url sess)))"
      by blast
    have 0: "out = Inr Allowed \<or> (\<exists>k. out = Inl (KeyError k)) \<longrightarrow> s' = s"
    proof (cases r)
      case (Inl e)
      with c css_error have "e = StripeError" by blast
      with Inl o show ?thesis by simp
    next
      case (Inr sess)
      with o show ?thesis by simp
    qed
    have 1: "\<forall>v. v \<noteq> u \<longrightarrow>
        map_of (load_data (usage_file s')) v = map_of (load_data (usage_file s)) v"
      using css_frame [OF c] by auto
    have 2: "map_option used (map_of (load_data (usage_file s')) u)
       = map_option used (map_of (load_data (usage_file s)) u)"
      using css_frame [OF c] m by auto
    have 3: "map_option subscribed (map_of (load_data (usage_file s')) u)
       = map_option subscribed (map_of (load_data (usage_file s)) u)"
      using css_frame [OF c] m by auto
    have 4: "\<forall>rec c. map_of (load_data (usage_file s)) u = Some rec \<and> stripe_customer_id rec = Some c
        \<longrightarrow> usage_file s' = usage_file s"
      using css_known_customer [of s u _ _ api] c by auto
    have 5: "usage_file s' \<noteq> usage_file s \<longrightarrow>
        (\<exists>rec n cid. map_of (load_data (usage_file s)) u = Some rec \<and> used rec = Some n \<and>
           n \<ge> FREE_LIMIT \<and> subscribed rec = Some False \<and> stripe_customer_id rec = None \<and>
           fst (Customer_create api u (stripe s)) = Some cid \<and>
           usage_file s' = Some (AList.update u (rec\<lparr>stripe_customer_id := Some cid\<rparr>)
                                   (load_data (usage_file s))))"
      using css_write [OF c m] m x by blast
    have 6: "\<forall>rec n cid w. map_of (load_data (usage_file s)) u = Some rec \<and> used rec = Some n \<and>
           n \<ge> FREE_LIMIT \<and> subscribed rec = Some False \<and> stripe_customer_id rec = None \<and>
           Customer_create api u (stripe s) = (Some cid, w) \<longrightarrow>
           usage_file s' = Some (AList.update u (rec\<lparr>stripe_customer_id := Some cid\<rparr>)
                                   (load_data (usage_file s)))"
      using css_writes [OF c] by blast
    have 7: "\<forall>q. out = Inr (QuotaExceeded q) \<longrightarrow>
        (\<exists>rec cid. map_of (load_data (usage_file s')) u = Some rec \<and>
           stripe_customer_id rec = Some cid)"
    proof (cases r)
      case (Inl e)
      with o show ?thesis by simp
    next
      case (Inr sess)
      with c css_stored [of api u s sess s'] show ?thesis by blast
    qed
    from 0 1 2 3 4 5 6 7 show ?thesis by blast
  qed
qed

theorem upload_gate_frame_witness:
  "upload_gate test_stripe alice \<lparr>usage_file = Some [(alice, at_limit), (bob, default_record)],
       stripe = 0\<rparr>
     = (Inr (QuotaExceeded ''https://checkout.test/cus_''),
        \<lparr>usage_file = Some [(alice, at_limit\<lparr>stripe_customer_id := Some ''cus_''\<rparr>),
           (bob, default_record)], stripe = 2\<rparr>)
   \<and> map_of [(alice, at_limit\<lparr>stripe_customer_id := Some ''cus_''\<rparr>), (bob, default_record)] bob
       = map_of [(alice, at_limit), (bob, default_record)] bob
   \<and> map_option used
        (map_of [(alice, at_limit\<lparr>stripe_customer_id := Some ''cus_''\<rparr>), (bob, default_record)] alice)
       = Some (Some 3)
   \<and> map_option subscribed
        (map_of [(alice, at_limit\<lparr>stripe_customer_id := Some ''cus_''\<rparr>), (bob, default_record)] alice)
       = Some (Some False)
   \<and> (\<exists>rec cid. map_of [(alice, at_limit\<lparr>stripe_customer_id := Some ''cus_''\<rparr>),
           (bob, default_record)] alice = Some rec \<and> stripe_customer_id rec = Some cid)
   \<and> upload_gate test_stripe bob \<lparr>usage_file = Some [(alice, at_limit), (bob, default_record)],
       stripe = 0\<rparr>
     = (Inr Allowed, \<lparr>usage_file = Some [(alice, at_limit), (bob, default_record)], stripe = 0\<rparr>)"
proof -
  let ?s = "\<lparr>usage_file = Some [(alice, at_limit), (bob, default_record)], stripe = 0::nat\<rparr>"
  let ?s' = "\<lparr>usage_file = Some [(alice, at_limit\<lparr>stripe_customer_id := Some ''cus_''\<rparr>),
           (bob, default_record)], stripe = 2::nat\<rparr>"
  have g: "upload_gate test_stripe alice ?s = (Inr (QuotaExceeded ''https://checkout.test/cus_''), ?s')"
    by (simp add: eval_defs at_limit_def bob_def)
  have a: "upload_gate test_stripe bob ?s = (Inr Allowed, ?s)"
    by (simp add: eval_defs at_limit_def bob_def)
  have ne: "bob \<noteq> alice" by (simp add: bob_def alice_def)
  note fg = upload_gate_frame [OF g]
  from fg ne have 1: "map_of (load_data (usage_file ?s')) bob = map_of (load_data (usage_file ?s)) bob"
    by blast
  from fg have 2: "map_option used (map_of (load_data (usage_file ?s')) alice)
       = map_option used (map_of (load_data (usage_file ?s)) alice)" by blast
  from fg have 3: "map_option subscribed (map_of (load_data (usage_file ?s')) alice)
       = map_option subscribed (map_of (load_data (usage_file ?s)) alice)" by blast
  from fg have 4: "\<exists>rec cid. map_of (load_data (usage_file ?s')) alice = Some rec \<and>
           stripe_customer_id rec = Some cid" by blast
  from g a 1 2 3 4 show ?thesis
    by (simp add: load_data_def at_limit_def)
qed

theorem gate_stores_billing_account:
  "upload_gate test_stripe alice \<lparr>usage_file = Some [(alice, at_limit)], stripe = 0\<rparr>
     = (Inr (QuotaExceeded ''https://checkout.test/cus_''),
        \<lparr>usage_file = Some [(alice, at_limit\<lparr>stripe_customer_id := Some ''cus_''\<rparr>)],
         stripe = 2\<rparr>)
   \<and> stripe_customer_id at_limit = None"
  by (simp add: eval_defs at_limit_def)

text \<open>
  Claim C5: the first entitlement check or checkout-session creation for an unseen user
  creates the stored record with \<^verbatim>\<open>used\<close> = 0 and \<^verbatim>\<open>subscribed\<close> = false. On the code,
  with no document on disk: checkout-session creation stores a record that holds the
  billing account only, with neither \<^verbatim>\<open>used\<close> nor \<^verbatim>\<open>subscribed\<close>; and the
  entitlement check builds the default record in the dictionary it loaded and stores
  nothing.
\<close>

theorem checkout_record_without_defaults:
  "create_checkout_session test_stripe (Some alice) \<lparr>usage_file = None, stripe = 0\<rparr>
     = (Inr (CheckoutUrl ''https://checkout.test/cus_''),
        \<lparr>usage_file = Some [(alice, \<lparr>used = None, subscribed = None,
            stripe_customer_id = Some ''cus_''\<rparr>)], stripe = 2\<rparr>)
   \<and> upload_gate test_stripe alice \<lparr>usage_file = None, stripe = 0\<rparr>
     = (Inr Allowed, \<lparr>usage_file = None, stripe = 0\<rparr>)"
  by (simp add: eval_defs)

subsection \<open>The webhook and the billing account\<close>

lemma mark_first_no_match:
  "\<forall>r \<in> snd ` set d. stripe_customer_id r \<noteq> cust \<Longrightarrow> mark_first cust d = d"
  by (induction d) auto

lemma mark_first_at:
  "i < length d \<Longrightarrow> stripe_customer_id (snd (d ! i)) = cust \<Longrightarrow>
   \<forall>j<i. stripe_customer_id (snd (d ! j)) \<noteq> cust \<Longrightarrow>
   mark_first cust d = d[i := (fst (d ! i), (snd (d ! i))\<lparr>subscribed := Some True\<rparr>)]"
proof (induction d arbitrary: i)
  case Nil
  then show ?case by simp
next
  case (Cons p d)
  obtain uid rec where p: "p = (uid, rec)" by (cases p)
  show ?case
  proof (cases i)
    case 0
    with Cons.prems p show ?thesis by simp
  next
    case (Suc k)
    from Cons.prems(3) Suc have "stripe_customer_id (snd ((p # d) ! 0)) \<noteq> cust" by blast
    with p have ne: "stripe_customer_id rec \<noteq> cust" by simp
    from Cons.prems Suc have k: "k < length d" "stripe_customer_id (snd (d ! k)) = cust" by simp_all
    have "\<forall>j<k. stripe_customer_id (snd (d ! j)) \<noteq> cust"
    proof (intro allI impI)
      fix j assume "j < k"
      then have "Suc j < i" using Suc by simp
      with Cons.prems(3) have "stripe_customer_id (snd ((p # d) ! Suc j)) \<noteq> cust" by blast
      then show "stripe_customer_id (snd (d ! j)) \<noteq> cust" by simp
    qed
    from Cons.IH [OF k this] p ne Suc show ?thesis by simp
  qed
qed

lemma mark_first_map_of:
  "map_of d v = Some rec \<Longrightarrow>
   map_of (mark_first cust d) v = Some rec \<or>
   map_of (mark_first cust d) v = Some (rec\<lparr>subscribed := Some True\<rparr>)"
  by (induction d) (auto split: if_splits)

lemma webhook_keeps_id:
  assumes "stripe_webhook ev s = (r, s')"
    and "map_of (load_data (usage_file s)) v = Some rec"
    and "stripe_customer_id rec = Some c"
  shows "\<exists>rec'. map_of (load_data (usage_file s')) v = Some rec' \<and> stripe_customer_id rec' = Some c"
proof (cases "\<exists>e. ev = Some e \<and> etype e = ''checkout.session.completed''")
  case True
  then obtain e where e: "ev = Some e" "etype e = ''checkout.session.completed''" by blast
  with assms(1) have "load_data (usage_file s') = mark_first (customer e) (load_data (usage_file s))"
    by (auto simp: stripe_webhook_def)
  with mark_first_map_of [OF assms(2), of "customer e"] assms(3) show ?thesis by auto
next
  case False
  with assms(1) have "s' = s"
    by (auto simp: stripe_webhook_def split: option.splits if_splits)
  with assms(2,3) show ?thesis by simp
qed

lemma gate_file:
  assumes "upload_gate api u s = (out, s')"
  shows "s' = s \<or> (\<exists>r. create_stripe_session api u s = (r, s'))"
  using assms
  by (auto simp: upload_gate_def split: prod.splits option.splits if_splits sum.splits)

lemma upload_file:
  assumes "upload api req s = (out, s')"
  shows "\<exists>s1 u. (s1 = s \<or> (\<exists>r. create_stripe_session api u s = (r, s1))) \<and>
      (s' = s1 \<or> s' = s1\<lparr>usage_file := Some (load_data (usage_file s1))\<rparr>)"
proof (cases "falsy (header_user_id req)")
  case True
  with assms show ?thesis by (auto simp: upload_def)
next
  case False
  obtain g s1 where g: "upload_gate api (the (header_user_id req)) s = (g, s1)"
    by (cases "upload_gate api (the (header_user_id req)) s")
  from gate_file [OF g] have 1: "s1 = s \<or> (\<exists>r. create_stripe_session api (the (header_user_id req)) s = (r, s1))" .
  from assms False g have "s' = s1 \<or> s' = s1\<lparr>usage_file := Some (load_data (usage_file s1))\<rparr>"
    by (auto simp: upload_def split: sum.splits gate.splits work.splits if_splits
        dest: increment_usage_file)
  with 1 show ?thesis by blast
qed

lemma handle_keeps_id:
  assumes "handle api req s = (out, s')"
    and "map_of (load_data (usage_file s)) v = Some rec"
    and "stripe_customer_id rec = Some c"
  shows "\<exists>rec'. map_of (load_data (usage_file s')) v = Some rec' \<and> stripe_customer_id rec' = Some c"
proof (cases req)
  case (PostCreateCheckoutSession uo)
  with assms(1) have "s' = s \<or> (\<exists>r. create_stripe_session api (the uo) s = (r, s'))"
    by (auto simp: create_checkout_session_def split: if_splits prod.splits sum.splits)
  with css_keeps_id assms(2,3) show ?thesis by blast
next
  case (GetCheckout uo)
  with assms(1) have "s' = s \<or> (\<exists>r. create_stripe_session api (the uo) s = (r, s'))"
    by (auto simp: checkout_redirect_def split: if_splits prod.splits sum.splits)
  with css_keeps_id assms(2,3) show ?thesis by blast
next
  case (PostWebhook ev)
  with assms(1) obtain r where "stripe_webhook ev s = (r, s')"
    by (auto split: prod.splits)
  from webhook_keeps_id [OF this assms(2,3)] show ?thesis .
next
  case (PostUpload ur)
  with assms(1) have "upload api ur s = (out, s')" by simp
  from upload_file [OF this] obtain s1 u where
    1: "s1 = s \<or> (\<exists>r. create_stripe_session api u s = (r, s1))" and
    2: "s' = s1 \<or> s' = s1\<lparr>usage_file := Some (load_data (usage_file s1))\<rparr>"
    by blast
  from 1 css_keeps_id assms(2,3) have "map_of (load_data (usage_file s1)) v = Some rec"
    by blast
  moreover from 2 have "load_data (usage_file s') = load_data (usage_file s1)"
    by (auto simp: load_data_def)
  ultimately show ?thesis using assms(3) by simp
qed


text \<open>
  Claim C6: the billing account of a user is assigned once and never changes. After a
  checkout-session creation that returned a session, the user's record holds a billing
  account and a second creation for the same user leaves the document as it is; a
  billing account that a record holds is still there after any request the service
  handles; and \<^verbatim>\<open>mark_subscribed\<close>, which no route calls, leaves the records as well.
\<close>

theorem billing_account_never_changes:
  "(create_stripe_session api u s = (Inr sess, t) \<longrightarrow>
      (\<exists>c rec. map_of (load_data (usage_file t)) u = Some rec \<and>
         stripe_customer_id rec = Some c \<and>
         usage_file (snd (create_stripe_session api u t)) = usage_file t)) \<and>
   (map_of (load_data (usage_file s)) v = Some r \<and> stripe_customer_id r = Some k \<longrightarrow>
      (\<exists>rec'. map_of (load_data (usage_file (snd (handle api req s)))) v = Some rec' \<and>
         stripe_customer_id rec' = Some k)) \<and>
   load_data (mark_subscribed f v) = load_data f"
proof (intro conjI impI)
  assume "create_stripe_session api u s = (Inr sess, t)"
  from css_stored [OF this] obtain c rec where
    m: "map_of (load_data (usage_file t)) u = Some rec" "stripe_customer_id rec = Some c"
    by blast
  from css_known_customer [OF m] m
  show "\<exists>c rec. map_of (load_data (usage_file t)) u = Some rec \<and>
         stripe_customer_id rec = Some c \<and>
         usage_file (snd (create_stripe_session api u t)) = usage_file t"
    by blast
next
  assume a: "map_of (load_data (usage_file s)) v = Some r \<and> stripe_customer_id r = Some k"
  obtain out s' where h: "handle api req s = (out, s')" by (cases "handle api req s")
  from handle_keeps_id [OF h] a h
  show "\<exists>rec'. map_of (load_data (usage_file (snd (handle api req s)))) v = Some rec' \<and>
         stripe_customer_id rec' = Some k"
    by simp
next
  show "load_data (mark_subscribed f v) = load_data f"
    by (simp add: mark_subscribed_def Let_def load_data_def save_data_def split: prod.splits)
qed

theorem billing_account_never_changes_witness:
  "create_stripe_session test_stripe alice \<lparr>usage_file = None, stripe = 0\<rparr>
     = (Inr (Session ''https://checkout.test/cus_''),
        \<lparr>usage_file = Some [(alice, empty_record\<lparr>stripe_customer_id := Some ''cus_''\<rparr>)],
         stripe = 2\<rparr>)
   \<and> usage_file (snd (create_stripe_session test_stripe alice
        \<lparr>usage_file = Some [(alice, empty_record\<lparr>stripe_customer_id := Some ''cus_''\<rparr>)],
         stripe = 2\<rparr>))
       = Some [(alice, empty_record\<lparr>stripe_customer_id := Some ''cus_''\<rparr>)]
   \<and> (\<exists>rec'. map_of (load_data (usage_file (snd (handle test_stripe
           (PostWebhook (Some (completed ''cus_'')))
           \<lparr>usage_file = Some [(alice, empty_record\<lparr>stripe_customer_id := Some ''cus_''\<rparr>)],
            stripe = 2\<rparr>)))) alice = Some rec'
         \<and> stripe_customer_id rec' = Some ''cus_'')"
proof -
  let ?s0 = "\<lparr>usage_file = None, stripe = 0::nat\<rparr>"
  let ?r = "empty_record\<lparr>stripe_customer_id := Some ''cus_''\<rparr>"
  let ?s1 = "\<lparr>usage_file = Some [(alice, ?r)], stripe = 2::nat\<rparr>"
  have c: "create_stripe_session test_stripe alice ?s0
      = (Inr (Session ''https://checkout.test/cus_''), ?s1)"
    by (simp add: eval_defs)
  have m: "map_of (load_data (usage_file ?s1)) alice = Some ?r \<and> stripe_customer_id ?r = Some ''cus_''"
    by (simp add: load_data_def)
  from billing_account_never_changes
    [where api = test_stripe and u = alice and s = ?s0 and t = ?s1
       and sess = "Session ''https://checkout.test/cus_''"]
    billing_account_never_changes
    [where api = test_stripe and s = ?s1 and v = alice and r = ?r and k = "''cus_''"
       and req = "PostWebhook (Some (completed ''cus_''))"]
    c m
  show ?thesis by simp
qed

text \<open>
  Claim C7: when exactly one record, at position i of the document, holds the billing
  account c of a completed checkout, the webhook answers 200 and saves the document
  with \<^verbatim>\<open>subscribed\<close> set to true in that record and nothing else changed: the other
  records, the other fields of that record, and the order of the records.
\<close>

theorem webhook_marks_the_match:
  assumes "etype e = ''checkout.session.completed''" and "customer e = Some c"
    and "d = load_data (usage_file s)" and "i < length d"
    and "stripe_customer_id (snd (d ! i)) = Some c"
    and "\<forall>j<length d. j \<noteq> i \<longrightarrow> stripe_customer_id (snd (d ! j)) \<noteq> Some c"
  shows "stripe_webhook (Some e) s =
     (Empty 200,
      s\<lparr>usage_file := Some (d[i := (fst (d ! i), (snd (d ! i))\<lparr>subscribed := Some True\<rparr>)])\<rparr>)"
proof -
  from assms(4,6) have "\<forall>j<i. stripe_customer_id (snd (d ! j)) \<noteq> Some c" by auto
  from mark_first_at [OF assms(4,5) this] assms(1,2,3) show ?thesis
    by (simp add: stripe_webhook_def save_data_def)
qed

theorem webhook_marks_the_match_witness:
  "stripe_webhook (Some (completed ''cus_a''))
     \<lparr>usage_file = Some [(bob, at_limit\<lparr>stripe_customer_id := Some ''cus_b''\<rparr>),
        (alice, at_limit\<lparr>stripe_customer_id := Some ''cus_a''\<rparr>)], stripe = 0::nat\<rparr>
   = (Empty 200,
      \<lparr>usage_file = Some [(bob, at_limit\<lparr>stripe_customer_id := Some ''cus_b''\<rparr>),
        (alice, at_limit\<lparr>subscribed := Some True, stripe_customer_id := Some ''cus_a''\<rparr>)],
       stripe = 0\<rparr>)"
proof -
  let ?d = "[(bob, at_limit\<lparr>stripe_customer_id := Some ''cus_b''\<rparr>),
        (alice, at_limit\<lparr>stripe_customer_id := Some ''cus_a''\<rparr>)]"
  let ?s = "\<lparr>usage_file = Some ?d, stripe = 0::nat\<rparr>"
  have 1: "etype (completed ''cus_a'') = ''checkout.session.completed''"
    and 2: "customer (completed ''cus_a'') = Some ''cus_a''"
    by (simp_all add: completed_def)
  have 3: "?d = load_data (usage_file ?s)" by (simp add: load_data_def)
  have 4: "(1::nat) < length ?d" by simp
  have 5: "stripe_customer_id (snd (?d ! 1)) = Some ''cus_a''" by simp
  have 6: "\<forall>j<length ?d. j \<noteq> 1 \<longrightarrow> stripe_customer_id (snd (?d ! j)) \<noteq> Some ''cus_a''"
    by (simp add: less_Suc_eq)
  from webhook_marks_the_match [OF 1 2 3 4 5 6] show ?thesis by simp
qed

text \<open>
  Claim C8: when no record holds the billing account c of the event, the webhook
  answers 200 and the records are what they were. (The document is written back with
  the same content; a document that did not exist is written as the empty dictionary.)
\<close>

theorem webhook_unmatched_noop:
  assumes "customer e = Some c"
    and "\<forall>r \<in> snd ` set (load_data (usage_file s)). stripe_customer_id r \<noteq> Some c"
  shows "\<exists>s'. stripe_webhook (Some e) s = (Empty 200, s') \<and>
     load_data (usage_file s') = load_data (usage_file s) \<and> stripe s' = stripe s"
  using mark_first_no_match [OF assms(2)] assms(1)
  by (simp add: stripe_webhook_def)

theorem webhook_unmatched_noop_witness:
  "\<exists>s'. stripe_webhook (Some (completed ''cus_z''))
       \<lparr>usage_file = Some [(alice, at_limit\<lparr>stripe_customer_id := Some ''cus_a''\<rparr>)],
        stripe = 0::nat\<rparr> = (Empty 200, s')
     \<and> load_data (usage_file s') = [(alice, at_limit\<lparr>stripe_customer_id := Some ''cus_a''\<rparr>)]
     \<and> stripe s' = 0"
proof -
  let ?s = "\<lparr>usage_file = Some [(alice, at_limit\<lparr>stripe_customer_id := Some ''cus_a''\<rparr>)],
        stripe = 0::nat\<rparr>"
  have 1: "customer (completed ''cus_z'') = Some ''cus_z''" by (simp add: completed_def)
  have 2: "\<forall>r \<in> snd ` set (load_data (usage_file ?s)). stripe_customer_id r \<noteq> Some ''cus_z''"
    by (simp add: load_data_def)
  from webhook_unmatched_noop [OF 1 2] show ?thesis by (simp add: load_data_def)
qed

subsection \<open>Requests without identity\<close>

text \<open>
  Claim C9: an upload without a \<^verbatim>\<open>User-ID\<close> header (or with an empty one) is answered
  with the error 400 at once; the document and the payment processor are untouched,
  whatever they hold.
\<close>

theorem upload_missing_identity:
  "falsy (header_user_id req) \<Longrightarrow>
   upload api req s = (Inr (JsonError ''Missing User-ID header'' 400), s)"
  by (simp add: upload_def)

theorem upload_missing_identity_witness:
  "falsy None \<and>
   upload test_stripe \<lparr>header_user_id = None, work = Refactored 1\<rparr>
     \<lparr>usage_file = Some [(alice, default_record)], stripe = 0\<rparr>
   = (Inr (JsonError ''Missing User-ID header'' 400),
      \<lparr>usage_file = Some [(alice, default_record)], stripe = 0\<rparr>)"
  using upload_missing_identity [of "\<lparr>header_user_id = None, work = Refactored 1\<rparr>"
      test_stripe "\<lparr>usage_file = Some [(alice, default_record)], stripe = 0\<rparr>"]
  by (simp add: falsy_def)

subsection \<open>Records without the keys the check reads\<close>

text \<open>
  Claim C10: the entitlement check reads \<^verbatim>\<open>rec["used"]\<close> and \<^verbatim>\<open>rec["subscribed"]\<close>
  without defaults. As stated (no failing lookup only for records with both keys) the
  claim is too strong, since \<^verbatim>\<open>rec["subscribed"]\<close> is read only once \<^verbatim>\<open>used\<close> has
  reached \<^verbatim>\<open>FREE_LIMIT\<close>. What holds: the
  check fails with a KeyError exactly when the record has no \<^verbatim>\<open>used\<close>, or has
  \<^verbatim>\<open>used\<close> at the limit or above and no \<^verbatim>\<open>subscribed\<close>; and for a user whose record
  was first created by the checkout helper, the next check fails on \<^verbatim>\<open>rec["used"]\<close>
  instead of treating the user as one with \<^verbatim>\<open>used\<close> = 0.
\<close>

theorem gate_lookup_failure:
  "((\<exists>k. fst (upload_gate api u s) = Inl (KeyError k)) \<longleftrightarrow>
      used (snd (get_user_record (usage_file s) u)) = None \<or>
      (\<exists>n. used (snd (get_user_record (usage_file s) u)) = Some n \<and> n \<ge> FREE_LIMIT \<and>
           subscribed (snd (get_user_record (usage_file s) u)) = None)) \<and>
   (map_of (load_data (usage_file s)) u = None \<and>
    create_stripe_session api u s = (Inr sess, t) \<longrightarrow>
      upload_gate api u t = (Inl (KeyError ''used''), t))"
proof (intro conjI impI)
  obtain d rec where g: "get_user_record (usage_file s) u = (d, rec)"
    by (cases "get_user_record (usage_file s) u")
  show "(\<exists>k. fst (upload_gate api u s) = Inl (KeyError k)) \<longleftrightarrow>
      used (snd (get_user_record (usage_file s) u)) = None \<or>
      (\<exists>n. used (snd (get_user_record (usage_file s) u)) = Some n \<and> n \<ge> FREE_LIMIT \<and>
           subscribed (snd (get_user_record (usage_file s) u)) = None)"
    using g css_error [of api u s]
    by (cases "create_stripe_session api u s")
       (auto simp: upload_gate_def split: option.splits sum.splits)
next
  assume a: "map_of (load_data (usage_file s)) u = None \<and>
    create_stripe_session api u s = (Inr sess, t)"
  then have "map_of (load_data (usage_file s)) u = None"
    and "create_stripe_session api u s = (Inr sess, t)" by simp_all
  from css_unseen [OF this] obtain cid where
    "map_of (load_data (usage_file t)) u = Some (empty_record\<lparr>stripe_customer_id := Some cid\<rparr>)"
    by blast
  then show "upload_gate api u t = (Inl (KeyError ''used''), t)"
    by (simp add: upload_gate_def get_user_record_def setdefault_def empty_record_def)
qed

theorem gate_lookup_failure_witness:
  "create_stripe_session test_stripe alice \<lparr>usage_file = None, stripe = 0\<rparr>
     = (Inr (Session ''https://checkout.test/cus_''),
        \<lparr>usage_file = Some [(alice, empty_record\<lparr>stripe_customer_id := Some ''cus_''\<rparr>)],
         stripe = 2\<rparr>)
   \<and> upload_gate test_stripe alice
        \<lparr>usage_file = Some [(alice, empty_record\<lparr>stripe_customer_id := Some ''cus_''\<rparr>)],
         stripe = 2\<rparr>
     = (Inl (KeyError ''used''),
        \<lparr>usage_file = Some [(alice, empty_record\<lparr>stripe_customer_id := Some ''cus_''\<rparr>)],
         stripe = 2\<rparr>)"
proof -
  let ?s0 = "\<lparr>usage_file = None, stripe = 0::nat\<rparr>"
  let ?s1 = "\<lparr>usage_file = Some [(alice, empty_record\<lparr>stripe_customer_id := Some ''cus_''\<rparr>)],
         stripe = 2::nat\<rparr>"
  have c: "create_stripe_session test_stripe alice ?s0
      = (Inr (Session ''https://checkout.test/cus_''), ?s1)"
    by (simp add: eval_defs)
  have u: "map_of (load_data (usage_file ?s0)) alice = None" by (simp add: load_data_def)
  from gate_lookup_failure [where api = test_stripe and u = alice and s = ?s0 and t = ?s1
      and sess = "Session ''https://checkout.test/cus_''"]
    c u
  show ?thesis by simp
qed

theorem gate_reads_subscribed_lazily:
  "upload_gate test_stripe alice
     \<lparr>usage_file = Some [(alice, \<lparr>used = Some 0, subscribed = None, stripe_customer_id = None\<rparr>)],
      stripe = 0\<rparr>
   = (Inr Allowed,
      \<lparr>usage_file = Some [(alice, \<lparr>used = Some 0, subscribed = None, stripe_customer_id = None\<rparr>)],
       stripe = 0\<rparr>)"
  by (simp add: eval_defs)

end
